theory Spec2Isabelle
  imports Main "HOL-Library.Sublist"
begin

section \<open>Observable effects of the server\<close>

text \<open>
  \<^verbatim>\<open>server.go\<close> computes almost nothing: what it does is a sequence of calls on
  sockets, on the logger, on the response writer and on the standard output. Each Go
  function is therefore embedded as a function from what the environment hands to it
  (the outcome of a bind, the inbound datagrams, the request, how much the standard output
  accepts) to the list of effects it performs, in program order.

  Go's \<^verbatim>\<open>[]byte\<close> and \<^verbatim>\<open>string\<close> are both lists of 8-bit characters here; an
  \<^verbatim>\<open>error\<close> and a \<^verbatim>\<open>net.Addr\<close> are the text that \<^verbatim>\<open>%v\<close> and \<^verbatim>\<open>%s\<close> print.
\<close>

type_synonym bytes = string
type_synonym error = string
type_synonym addr = string

datatype event =
    Log string                \<comment> \<open>one record on the standard logger (without its time stamp)\<close>
  | Exit nat                  \<comment> \<open>\<^verbatim>\<open>os.Exit\<close>\<close>
  | SetHeader string string   \<comment> \<open>\<^verbatim>\<open>w.Header().Set\<close>\<close>
  | WriteHeader nat           \<comment> \<open>\<^verbatim>\<open>w.WriteHeader\<close>\<close>
  | RespWrite bytes           \<comment> \<open>\<^verbatim>\<open>w.Write\<close>\<close>
  | ParseMultipart            \<comment> \<open>the request body is read and parsed as a multipart form\<close>
  | StdoutWrite bytes         \<comment> \<open>bytes that reached \<^verbatim>\<open>os.Stdout\<close>\<close>
  | FileClose                 \<comment> \<open>\<^verbatim>\<open>file.Close\<close> on the uploaded file\<close>
  | PacketWriteTo bytes addr  \<comment> \<open>\<^verbatim>\<open>WriteTo\<close> on a packet connection\<close>
  | ConnRead                  \<comment> \<open>\<^verbatim>\<open>Read\<close> on a stream connection\<close>
  | ConnWrite bytes           \<comment> \<open>\<^verbatim>\<open>Write\<close> on a stream connection\<close>
  | ConnClose                 \<comment> \<open>\<^verbatim>\<open>Close\<close> on a stream connection\<close>
  | Sleep nat                 \<comment> \<open>\<^verbatim>\<open>time.Sleep\<close>, in nanoseconds\<close>
  | EndpointClose             \<comment> \<open>\<^verbatim>\<open>Close\<close> on a listener's own socket\<close>

definition LF :: string where
  "LF = [CHR 0x0A]"

subsection \<open>A function activation with deferred calls\<close>

text \<open>
  A running Go function has performed some effects and has a stack of deferred calls.
  Returning runs the deferred calls, the last deferred first. \<^verbatim>\<open>os.Exit\<close> ends the
  program at once and runs none of them.
\<close>

record frame =
  done_events :: "event list"
  deferred :: "event list"

definition new_frame :: frame where
  "new_frame = \<lparr>done_events = [], deferred = []\<rparr>"

definition emit :: "event \<Rightarrow> frame \<Rightarrow> frame" where
  "emit e f = f\<lparr>done_events := done_events f @ [e]\<rparr>"

definition go_defer :: "event \<Rightarrow> frame \<Rightarrow> frame" where
  "go_defer e f = f\<lparr>deferred := e # deferred f\<rparr>"

definition func_return :: "frame \<Rightarrow> event list" where
  "func_return f = done_events f @ deferred f"

definition os_Exit :: "nat \<Rightarrow> frame \<Rightarrow> event list" where
  "os_Exit code f = done_events f @ [Exit code]"

subsection \<open>Package log\<close>

text \<open>
  The logger writes one line per call and appends a newline when the text does not end
  in one. \<^verbatim>\<open>Println\<close> formats with a final newline; \<^verbatim>\<open>Fatal\<close> and \<^verbatim>\<open>Fatalf\<close> log
  and then call \<^verbatim>\<open>os.Exit(1)\<close>. The caller of these definitions has already put the
  arguments into the format string.
\<close>

definition log_line :: "string \<Rightarrow> string" where
  "log_line s = (if s \<noteq> [] \<and> last s = CHR 0x0A then s else s @ LF)"

definition log_Printf :: "string \<Rightarrow> frame \<Rightarrow> frame" where
  "log_Printf s f = emit (Log (log_line s)) f"

definition log_Println :: "string \<Rightarrow> frame \<Rightarrow> frame" where
  "log_Println s f = emit (Log (log_line (s @ LF))) f"

definition log_Fatalf :: "string \<Rightarrow> frame \<Rightarrow> event list" where
  "log_Fatalf s f = os_Exit 1 (emit (Log (log_line s)) f)"

definition log_Fatal :: "string \<Rightarrow> frame \<Rightarrow> event list" where
  "log_Fatal s f = os_Exit 1 (emit (Log (log_line s)) f)"

text \<open>The verb \<^verbatim>\<open>%x\<close> prints a byte slice as lower-case hexadecimal, two digits a byte.\<close>

definition hex_digit :: "nat \<Rightarrow> char" where
  "hex_digit n = ''0123456789abcdef'' ! (n mod 16)"

definition hex_byte :: "char \<Rightarrow> string" where
  "hex_byte c = [hex_digit (of_char c div 16), hex_digit (of_char c mod 16)]"

definition hex :: "bytes \<Rightarrow> string" where
  "hex bs = concat (map hex_byte bs)"

subsection \<open>Package net/http: requests, the response writer, the multiplexer\<close>

text \<open>
  The URL of a request. The requests modelled are those in origin form (a path, then
  perhaps a query) and the asterisk form; scheme, host, user, opaque part and fragment
  of \<^verbatim>\<open>r.URL\<close> are empty for them and are left out. \<open>Path\<close> is the decoded path,
  \<open>RawPath\<close> the path as it was sent when that is not the default encoding of
  \<open>Path\<close>, \<open>ForceQuery\<close> tells that a question mark was sent with nothing after it.
\<close>

record url =
  Path :: string
  RawPath :: string
  ForceQuery :: bool
  RawQuery :: string

text \<open>
  Package net/url, the encoding of a path: letters, digits, the marks \<^verbatim>\<open>-_.~\<close> and the
  reserved characters other than the question mark stay, every other byte becomes a
  percent sign and two upper-case hexadecimal digits.
\<close>

definition is_alnum :: "char \<Rightarrow> bool" where
  "is_alnum c =
     (let n = (of_char c :: nat)
      in (97 \<le> n \<and> n \<le> 122) \<or> (65 \<le> n \<and> n \<le> 90) \<or> (48 \<le> n \<and> n \<le> 57))"

definition shouldEscape_path :: "char \<Rightarrow> bool" where
  "shouldEscape_path c =
     (if is_alnum c then False
      else if c \<in> set ''-_.~'' then False
      else if c \<in> set ''$&+,/:;=?@'' then c = CHR ''?''
      else True)"

definition upperhex :: "nat \<Rightarrow> char" where
  "upperhex n = ''0123456789ABCDEF'' ! (n mod 16)"

definition escape_byte :: "char \<Rightarrow> string" where
  "escape_byte c =
     (if shouldEscape_path c
      then [CHR ''%'', upperhex (of_char c div 16), upperhex (of_char c mod 16)]
      else [c])"

definition escape_path :: "string \<Rightarrow> string" where
  "escape_path s = concat (map escape_byte s)"

definition ishex :: "char \<Rightarrow> bool" where
  "ishex c =
     (let n = (of_char c :: nat)
      in (48 \<le> n \<and> n \<le> 57) \<or> (97 \<le> n \<and> n \<le> 102) \<or> (65 \<le> n \<and> n \<le> 70))"

definition unhex :: "char \<Rightarrow> nat" where
  "unhex c =
     (let n = (of_char c :: nat)
      in if 48 \<le> n \<and> n \<le> 57 then n - 48
         else if 97 \<le> n \<and> n \<le> 102 then n - 97 + 10
         else if 65 \<le> n \<and> n \<le> 70 then n - 65 + 10
         else 0)"

text \<open>Decoding fails on a percent sign that is not followed by two hexadecimal digits.\<close>

fun unescape_path :: "string \<Rightarrow> string option" where
  "unescape_path [] = Some []"
| "unescape_path [c] = (if c = CHR ''%'' then None else Some [c])"
| "unescape_path [c, h] =
     (if c = CHR ''%'' then None else map_option ((#) c) (unescape_path [h]))"
| "unescape_path (c # h1 # h2 # s) =
     (if c = CHR ''%''
      then (if ishex h1 \<and> ishex h2
            then map_option ((#) (char_of (16 * unhex h1 + unhex h2))) (unescape_path s)
            else None)
      else map_option ((#) c) (unescape_path (h1 # h2 # s)))"

definition validEncoded_byte :: "char \<Rightarrow> bool" where
  "validEncoded_byte c =
     (if c \<in> set (''!$&'' @ [CHR 0x27] @ ''()*+,;=:@[]%'') then True
      else if shouldEscape_path c then False
      else True)"

definition validEncoded_path :: "string \<Rightarrow> bool" where
  "validEncoded_path s = list_all validEncoded_byte s"

text \<open>
  \<^verbatim>\<open>EscapedPath\<close> is \<open>RawPath\<close> when that is a valid encoding of \<open>Path\<close>, and the
  default encoding of \<open>Path\<close> otherwise. \<^verbatim>\<open>String\<close>, which is what \<^verbatim>\<open>%s\<close> prints,
  is the escaped path (after \<^verbatim>\<open>./\<close> when its first segment has a colon), then the
  query after a question mark.
\<close>

definition EscapedPath :: "url \<Rightarrow> string" where
  "EscapedPath u =
     (if RawPath u \<noteq> [] \<and> validEncoded_path (RawPath u)
          \<and> unescape_path (RawPath u) = Some (Path u)
      then RawPath u
      else if Path u = ''*'' then ''*''
      else escape_path (Path u))"

definition url_String :: "url \<Rightarrow> string" where
  "url_String u =
     (let p = EscapedPath u
      in (if CHR '':'' \<in> set (takeWhile (\<lambda>c. c \<noteq> CHR ''/'') p) then ''./'' else [])
         @ p
         @ (if ForceQuery u \<or> RawQuery u \<noteq> [] then ''?'' @ RawQuery u else []))"

text \<open>
  \<open>Multipart\<close> is the request body as \<^verbatim>\<open>ParseMultipartForm\<close> sees it: \<open>None\<close> when
  the body is not a well-formed multipart form, otherwise the file parts in order, each
  with its field name and its content.
\<close>

record request =
  Method :: string
  URL :: url
  RemoteAddr :: addr
  Multipart :: "(string \<times> bytes) list option"

definition MethodPost :: string where
  "MethodPost = ''POST''"

definition StatusOK :: nat where
  "StatusOK = 200"

definition StatusMovedPermanently :: nat where
  "StatusMovedPermanently = 301"

definition StatusBadRequest :: nat where
  "StatusBadRequest = 400"

definition StatusNotFound :: nat where
  "StatusNotFound = 404"

definition StatusMethodNotAllowed :: nat where
  "StatusMethodNotAllowed = 405"

text \<open>
  \<^verbatim>\<open>http.Error\<close> sets two headers, writes the status line and prints the message
  followed by a newline.
\<close>

definition http_Error :: "string \<Rightarrow> nat \<Rightarrow> frame \<Rightarrow> frame" where
  "http_Error msg code f =
     emit (RespWrite (msg @ LF))
       (emit (WriteHeader code)
         (emit (SetHeader ''X-Content-Type-Options'' ''nosniff'')
           (emit (SetHeader ''Content-Type'' ''text/plain; charset=utf-8'') f)))"

text \<open>
  \<^verbatim>\<open>r.FormFile(key)\<close> parses the body and returns the first file stored under the
  key, or an error.
\<close>

definition FormFile :: "request \<Rightarrow> string \<Rightarrow> frame \<Rightarrow> (error + bytes) \<times> frame" where
  "FormFile r key f =
     (case Multipart r of
        None \<Rightarrow> (Inl ''request Content-Type isn't multipart/form-data'', emit ParseMultipart f)
      | Some parts \<Rightarrow>
          (case map_of parts key of
             None \<Rightarrow> (Inl ''http: no such file'', emit ParseMultipart f)
           | Some content \<Rightarrow> (Inr content, emit ParseMultipart f)))"

text \<open>
  \<^verbatim>\<open>io.Copy(os.Stdout, file)\<close> writes the content until the end of the file or the first
  failed write. \<open>room\<close> is the environment: \<open>None\<close> when the standard output accepts
  everything, \<open>Some k\<close> when it fails after \<open>k\<close> bytes. The result is the error, if any.
\<close>

definition io_Copy_Stdout :: "nat option \<Rightarrow> bytes \<Rightarrow> frame \<Rightarrow> error option \<times> frame" where
  "io_Copy_Stdout room content f =
     (case room of
        None \<Rightarrow> (None, if content = [] then f else emit (StdoutWrite content) f)
      | Some k \<Rightarrow>
          if length content \<le> k
          then (None, if content = [] then f else emit (StdoutWrite content) f)
          else (Some ''write /dev/stdout: no space left on device'',
                if k = 0 then f else emit (StdoutWrite (take k content)) f))"

text \<open>
  What a handler hands to the response writer is read off its effects: the first
  \<^verbatim>\<open>WriteHeader\<close> fixes the status, a \<^verbatim>\<open>Write\<close> before any \<^verbatim>\<open>WriteHeader\<close> implies
  status 200, headers set after the status line are lost, and a handler that writes
  nothing answers 200. \<open>body\<close> is what the handler wrote; the server sends it, except
  in answer to a HEAD request, for which it sends the status and the headers only.
\<close>

record response =
  wroteHeader :: bool
  status :: nat
  header :: "(string \<times> string) list"
  body :: bytes

definition new_response :: response where
  "new_response = \<lparr>wroteHeader = False, status = 0, header = [], body = []\<rparr>"

definition implicit_header :: "response \<Rightarrow> response" where
  "implicit_header w =
     (if wroteHeader w then w else w\<lparr>wroteHeader := True, status := StatusOK\<rparr>)"

fun resp_event :: "event \<Rightarrow> response \<Rightarrow> response" where
  "resp_event (SetHeader k v) w =
     (if wroteHeader w then w else w\<lparr>header := (k, v) # filter (\<lambda>kv. fst kv \<noteq> k) (header w)\<rparr>)"
| "resp_event (WriteHeader code) w =
     (if wroteHeader w then w else w\<lparr>wroteHeader := True, status := code\<rparr>)"
| "resp_event (RespWrite b) w = (implicit_header w)\<lparr>body := body (implicit_header w) @ b\<rparr>"
| "resp_event _ w = w"

definition response_of :: "event list \<Rightarrow> response" where
  "response_of t = implicit_header (fold resp_event t new_response)"



fun stdout_bytes :: "event \<Rightarrow> bytes" where
  "stdout_bytes (StdoutWrite b) = b"
| "stdout_bytes _ = []"

definition stdout_of :: "event list \<Rightarrow> bytes" where
  "stdout_of t = concat (map stdout_bytes t)"



text \<open>
  The multiplexer looks a path up among the registered patterns: a pattern that ends in a
  slash names a subtree and matches every path it is a prefix of, any other pattern
  matches that path only, and the longest matching pattern wins. Without a match the
  answer is \<^verbatim>\<open>http.NotFound\<close>.
\<close>

definition pattern_matches :: "string \<Rightarrow> string \<Rightarrow> bool" where
  "pattern_matches pat p =
     (if pat \<noteq> [] \<and> last pat = CHR ''/'' then prefix pat p else pat = p)"

fun mux_match :: "(string \<times> 'h) list \<Rightarrow> string \<Rightarrow> (string \<times> 'h) option" where
  "mux_match [] p = None"
| "mux_match ((pat, h) # es) p =
     (case mux_match es p of
        None \<Rightarrow> if pattern_matches pat p then Some (pat, h) else None
      | Some (pat', h') \<Rightarrow>
          if pattern_matches pat p \<and> length pat' < length pat then Some (pat, h)
          else Some (pat', h'))"

definition http_NotFound :: "event list" where
  "http_NotFound = func_return (http_Error ''404 page not found'' StatusNotFound new_frame)"

text \<open>
  Before the lookup the multiplexer brings the path into its clean form. \<^verbatim>\<open>path.Clean\<close>
  of a rooted path drops empty elements and \<^verbatim>\<open>.\<close> elements and lets a \<^verbatim>\<open>..\<close> element
  remove the element before it, if there is one; \<^verbatim>\<open>cleanPath\<close> roots the path, cleans
  it and puts a final slash back. \<open>path_Clean\<close> is \<^verbatim>\<open>path.Clean\<close> on rooted paths, the
  only ones \<^verbatim>\<open>cleanPath\<close> hands to it.
\<close>

fun split_on :: "char \<Rightarrow> string \<Rightarrow> string list" where
  "split_on c [] = [[]]"
| "split_on c (x # xs) =
     (if x = c then [] # split_on c xs
      else (case split_on c xs of [] \<Rightarrow> [[x]] | e # es \<Rightarrow> (x # e) # es))"

fun clean_elems :: "string list \<Rightarrow> string list \<Rightarrow> string list" where
  "clean_elems kept [] = rev kept"
| "clean_elems kept (e # es) =
     (if e = [] \<or> e = ''.'' then clean_elems kept es
      else if e = ''..'' then clean_elems (case kept of [] \<Rightarrow> [] | k # ks \<Rightarrow> ks) es
      else clean_elems (e # kept) es)"

fun join_slash :: "string list \<Rightarrow> string" where
  "join_slash [] = []"
| "join_slash [e] = e"
| "join_slash (e # es) = e @ ''/'' @ join_slash es"

definition path_Clean :: "string \<Rightarrow> string" where
  "path_Clean p = ''/'' @ join_slash (clean_elems [] (split_on (CHR ''/'') p))"

definition cleanPath :: "string \<Rightarrow> string" where
  "cleanPath p =
     (if p = [] then ''/''
      else
        (let p = (if hd p \<noteq> CHR ''/'' then ''/'' @ p else p);
             np = path_Clean p
         in if last p = CHR ''/'' \<and> np \<noteq> ''/''
            then (if length p = length np + 1 \<and> prefix np p then p else np @ ''/'')
            else np))"

text \<open>
  A path that is not registered while the same path with a slash added is, is redirected
  to the latter.
\<close>

definition shouldRedirect :: "(string \<times> 'h) list \<Rightarrow> string \<Rightarrow> bool" where
  "shouldRedirect m p =
     (if p \<in> set (map fst m) then False
      else if p = [] then False
      else if (p @ ''/'') \<in> set (map fst m) then last p \<noteq> CHR ''/''
      else False)"

text \<open>
  \<^verbatim>\<open>http.Redirect\<close>, for a URL that is a clean rooted path with perhaps a query (its own
  cleaning leaves such a URL as it is): the location, a content type and a short HTML
  body where the method calls for them, and the status.
\<close>

definition hexEscapeNonASCII :: "string \<Rightarrow> string" where
  "hexEscapeNonASCII s =
     concat (map (\<lambda>c. if 128 \<le> (of_char c :: nat) then CHR ''%'' # hex_byte c else [c]) s)"

definition htmlEscape_byte :: "char \<Rightarrow> string" where
  "htmlEscape_byte c =
     (if c = CHR ''&'' then ''&amp;''
      else if c = CHR ''<'' then ''&lt;''
      else if c = CHR ''>'' then ''&gt;''
      else if c = CHR 0x22 then ''&#34;''
      else if c = CHR 0x27 then ''&#39;''
      else [c])"

definition htmlEscape :: "string \<Rightarrow> string" where
  "htmlEscape s = concat (map htmlEscape_byte s)"

definition http_Redirect :: "request \<Rightarrow> string \<Rightarrow> nat \<Rightarrow> event list" where
  "http_Redirect r u code =
     (let f = new_frame;
          f = emit (SetHeader ''Location'' (hexEscapeNonASCII u)) f;
          f = (if Method r = ''GET'' \<or> Method r = ''HEAD''
               then emit (SetHeader ''Content-Type'' ''text/html; charset=utf-8'') f else f);
          f = emit (WriteHeader code) f;
          f = (if Method r = ''GET''
               then emit (RespWrite (''<a href='' @ [CHR 0x22] @ htmlEscape u @ [CHR 0x22]
                            @ ''>Moved Permanently</a>.'' @ LF @ LF)) f
               else f)
      in func_return f)"

section \<open>The HTTP server\<close>

text \<open>
  The handler registered for \<^verbatim>\<open>"/"\<close>. Like every handler it is given the request and
  the room left on the standard output, which it does not use.
\<close>

definition rootHandler :: "request \<Rightarrow> nat option \<Rightarrow> event list" where
  "rootHandler r room =
     (let f = new_frame;
          f = log_Printf (''HTTP Request: '' @ Method r @ '' '' @ url_String (URL r)
                           @ '' from '' @ RemoteAddr r @ LF) f;
          f = emit (RespWrite (''HTTP server is working!'' @ LF)) f
      in func_return f)"

text \<open>The handler registered for \<^verbatim>\<open>"/upload"\<close>.\<close>

definition uploadHandler :: "request \<Rightarrow> nat option \<Rightarrow> event list" where
  "uploadHandler r room =
     (let f = new_frame in
      if Method r \<noteq> MethodPost
      then func_return (http_Error ''Invalid method'' StatusMethodNotAllowed f)
      else
        (case FormFile r ''file'' f of
           (Inl err, f) \<Rightarrow> func_return (http_Error ''Failed to get file'' StatusBadRequest f)
         | (Inr file, f) \<Rightarrow>
             (let f = go_defer FileClose f;
                  f = log_Println ''File uploaded successfully'' f;
                  f = snd (io_Copy_Stdout room file f);
                  f = emit (RespWrite (''File upload successful'' @ LF)) f
              in func_return f)))"

definition DefaultServeMux :: "(string \<times> (request \<Rightarrow> nat option \<Rightarrow> event list)) list" where
  "DefaultServeMux = [(''/'', rootHandler), (''/upload'', uploadHandler)]"

text \<open>
  Serving one request, as the server and its default multiplexer do (the steps are those
  of Go up to 1.21; later versions take them on the escaped path). The request target
  \<^verbatim>\<open>*\<close>, which is the one with the path \<^verbatim>\<open>*\<close>, is answered without a lookup: 200 and
  no body for OPTIONS, else 400. A CONNECT request is looked up as it is. For every
  other request the path is cleaned first, and a path that is not in clean form is
  answered with a redirect to the clean one; no handler runs then.
\<close>

definition redirect_target :: "string \<Rightarrow> request \<Rightarrow> string" where
  "redirect_target p r =
     url_String \<lparr>Path = p, RawPath = [], ForceQuery = False, RawQuery = RawQuery (URL r)\<rparr>"

definition mux_handler :: "string \<Rightarrow> request \<Rightarrow> nat option \<Rightarrow> event list" where
  "mux_handler p r room =
     (case mux_match DefaultServeMux p of
        None \<Rightarrow> http_NotFound
      | Some (pat, h) \<Rightarrow> h r room)"

definition ServeHTTP :: "request \<Rightarrow> nat option \<Rightarrow> event list" where
  "ServeHTTP r room =
     (if Path (URL r) = ''*''
      then (if Method r = ''OPTIONS''
            then func_return (emit (SetHeader ''Content-Length'' ''0'') new_frame)
            else func_return (emit (WriteHeader StatusBadRequest)
                   (emit (SetHeader ''Connection'' ''close'') new_frame)))
      else if Method r = ''CONNECT''
      then (if shouldRedirect DefaultServeMux (Path (URL r))
            then http_Redirect r (redirect_target (Path (URL r) @ ''/'') r)
                   StatusMovedPermanently
            else mux_handler (Path (URL r)) r room)
      else
        (let p = cleanPath (Path (URL r)) in
         if shouldRedirect DefaultServeMux p
         then http_Redirect r (redirect_target (p @ ''/'') r) StatusMovedPermanently
         else if p \<noteq> Path (URL r)
         then http_Redirect r (redirect_target p r) StatusMovedPermanently
         else mux_handler p r room))"

section \<open>The echo servers\<close>

text \<open>
  One call of \<^verbatim>\<open>ReadFrom(buf)\<close> on the UDP socket either fails or delivers one datagram
  with the address of its sender. The datagram is copied to the front of the buffer, cut
  to the length of the buffer, and the number of bytes copied is returned; the rest of
  the buffer keeps what earlier calls left there.
\<close>

datatype recv = RecvError error | Datagram bytes addr

definition UDPConn_ReadFrom :: "bytes \<Rightarrow> recv \<Rightarrow> bytes \<times> (error + nat \<times> addr)" where
  "UDPConn_ReadFrom buf x =
     (case x of
        RecvError err \<Rightarrow> (buf, Inl err)
      | Datagram d a \<Rightarrow>
          (let n = min (length d) (length buf) in (take n d @ drop n buf, Inr (n, a))))"

text \<open>
  On the raw socket the kernel delivers an IPv4 packet: its header, then the payload.
  \<^verbatim>\<open>ReadFrom\<close> reads the packet, header first, into the buffer, cut to the length of the
  buffer, and then strips the header: it moves what follows the header to the front and
  takes the length of the header off the count. \<open>l\<close> is the header length that the first
  byte of the packet states, which for a packet from the kernel is the length of its
  header (20 to 60 bytes); stripping is skipped when the buffer or \<open>l\<close> is below 20 or
  \<open>l\<close> exceeds the buffer. Where the header is stripped it was read in full, so the
  count is at least \<open>l\<close>.
\<close>

datatype ip_recv = IPRecvError error | IPPacket bytes bytes addr

definition stripIPv4Header :: "nat \<Rightarrow> bytes \<Rightarrow> nat \<Rightarrow> nat \<times> bytes" where
  "stripIPv4Header n b l =
     (if length b < 20 then (n, b)
      else if l < 20 \<or> length b < l then (n, b)
      else (n - l, drop l b @ drop (length b - l) b))"

definition IPConn_ReadFrom :: "bytes \<Rightarrow> ip_recv \<Rightarrow> bytes \<times> (error + nat \<times> addr)" where
  "IPConn_ReadFrom buf x =
     (case x of
        IPRecvError err \<Rightarrow> (buf, Inl err)
      | IPPacket hdr d a \<Rightarrow>
          (let n = min (length (hdr @ d)) (length buf);
               b = take n (hdr @ d) @ drop n buf;
               (n, b) = stripIPv4Header n b (length hdr)
           in (b, Inr (n, a))))"

text \<open>
  The \<^verbatim>\<open>for\<close> loops never return. They are run on the inbound units that have arrived
  so far, one iteration a unit; the frame returned holds the effects performed up to
  then.
\<close>

fun dns_loop :: "bytes \<Rightarrow> recv list \<Rightarrow> frame \<Rightarrow> frame" where
  "dns_loop buf [] f = f"
| "dns_loop buf (x # xs) f =
     (case UDPConn_ReadFrom buf x of
        (buf, Inl err) \<Rightarrow>
          dns_loop buf xs (log_Printf (''Error reading from DNS: '' @ err @ LF) f)
      | (buf, Inr (n, addr)) \<Rightarrow>
          (let f = log_Printf (''DNS Request from '' @ addr @ '': '' @ hex (take n buf) @ LF) f;
               f = emit (PacketWriteTo (take n buf) addr) f
           in dns_loop buf xs f))"

definition startDNSServer :: "error option \<Rightarrow> recv list \<Rightarrow> event list \<times> event list list" where
  "startDNSServer bind inbound =
     (let f = new_frame in
      case bind of
        Some err \<Rightarrow> (log_Fatalf (''Failed to start DNS server: '' @ err) f, [])
      | None \<Rightarrow>
          (let f = go_defer EndpointClose f;
               f = log_Println ''DNS server is listening on port 53'' f;
               buf = replicate 512 (CHR 0x00);
               f = dns_loop buf inbound f
           in (done_events f, [])))"

fun icmp_loop :: "bytes \<Rightarrow> ip_recv list \<Rightarrow> frame \<Rightarrow> frame" where
  "icmp_loop buf [] f = f"
| "icmp_loop buf (x # xs) f =
     (case IPConn_ReadFrom buf x of
        (buf, Inl err) \<Rightarrow>
          icmp_loop buf xs (log_Printf (''Error reading ICMP: '' @ err @ LF) f)
      | (buf, Inr (n, addr)) \<Rightarrow>
          (let f = log_Printf (''ICMP Request from '' @ addr @ LF) f;
               f = emit (PacketWriteTo (take n buf) addr) f
           in icmp_loop buf xs f))"

definition startICMPServer ::
  "error option \<Rightarrow> ip_recv list \<Rightarrow> event list \<times> event list list" where
  "startICMPServer bind inbound =
     (let f = new_frame in
      case bind of
        Some err \<Rightarrow> (log_Fatalf (''Failed to start ICMP server: '' @ err) f, [])
      | None \<Rightarrow>
          (let f = go_defer EndpointClose f;
               f = log_Println ''ICMP server is listening'' f;
               buf = replicate 1024 (CHR 0x00);
               f = icmp_loop buf inbound f
           in (done_events f, [])))"

section \<open>The SMTP server\<close>

text \<open>
  An accepted connection, as far as the handler can tell: the address of the peer and
  the error, if any, that \<^verbatim>\<open>Write\<close> will return.
\<close>

record conn =
  peer :: addr
  write_error :: "error option"

definition conn_Write :: "conn \<Rightarrow> bytes \<Rightarrow> frame \<Rightarrow> error option \<times> frame" where
  "conn_Write c b f = (write_error c, emit (ConnWrite b) f)"

definition Second :: nat where
  "Second = 1000000000"

text \<open>The function literal started with \<^verbatim>\<open>go\<close> for each accepted connection.\<close>

definition smtp_handler :: "conn \<Rightarrow> event list" where
  "smtp_handler c =
     (let f = new_frame;
          f = go_defer ConnClose f;
          f = log_Printf (''SMTP Connection from '' @ peer c @ LF) f;
          f = snd (conn_Write c (''220 Simple SMTP Test Server'' @ LF) f);
          f = emit (Sleep (10 * Second)) f
      in func_return f)"

datatype accept = AcceptError error | Accepted conn

text \<open>
  The accept loop, on the results of \<^verbatim>\<open>Accept\<close> so far. Besides its own effects it
  collects the goroutines it has started, each given by the effects it performs.
\<close>

fun smtp_loop :: "accept list \<Rightarrow> frame \<times> event list list \<Rightarrow> frame \<times> event list list" where
  "smtp_loop [] (f, gs) = (f, gs)"
| "smtp_loop (x # xs) (f, gs) =
     (case x of
        AcceptError err \<Rightarrow>
          smtp_loop xs (log_Printf (''Failed to accept SMTP connection: '' @ err @ LF) f, gs)
      | Accepted c \<Rightarrow> smtp_loop xs (f, gs @ [smtp_handler c]))"

definition startSMTPServer :: "error option \<Rightarrow> accept list \<Rightarrow> event list \<times> event list list" where
  "startSMTPServer bind inbound =
     (let f = new_frame in
      case bind of
        Some err \<Rightarrow> (log_Fatalf (''Failed to start SMTP server: '' @ err) f, [])
      | None \<Rightarrow>
          (let f = go_defer EndpointClose f;
               f = log_Println ''SMTP server is listening on port 25'' f;
               (f, gs) = smtp_loop inbound (f, [])
           in (done_events f, gs)))"

section \<open>Starting the HTTP server, and the whole process\<close>

text \<open>
  \<^verbatim>\<open>http.ListenAndServe\<close> returns only with an error; here the error is the one of the
  bind. When the bind succeeds every request is served in a goroutine of its own.
\<close>

definition startHTTPServer ::
  "error option \<Rightarrow> (request \<times> nat option) list \<Rightarrow> event list \<times> event list list" where
  "startHTTPServer bind inbound =
     (let f = new_frame;
          f = log_Println ''Starting HTTP server on port 8080'' f
      in case bind of
           Some err \<Rightarrow> (log_Fatal err f, [])
         | None \<Rightarrow> (done_events f, map (\<lambda>(r, room). ServeHTTP r room) inbound))"

datatype listener = HTTP | DNS | ICMP | SMTP

text \<open>
  The environment of one run of the process: the binds that fail, each with its error,
  and the traffic that reaches each listener.
\<close>

record world =
  bind_errors :: "(listener \<times> error) list"
  http_in :: "(request \<times> nat option) list"
  dns_in :: "recv list"
  icmp_in :: "ip_recv list"
  smtp_in :: "accept list"

fun start :: "world \<Rightarrow> listener \<Rightarrow> event list \<times> event list list" where
  "start w HTTP = startHTTPServer (map_of (bind_errors w) HTTP) (http_in w)"
| "start w DNS = startDNSServer (map_of (bind_errors w) DNS) (dns_in w)"
| "start w ICMP = startICMPServer (map_of (bind_errors w) ICMP) (icmp_in w)"
| "start w SMTP = startSMTPServer (map_of (bind_errors w) SMTP) (smtp_in w)"

fun exit_status :: "event list \<Rightarrow> nat option" where
  "exit_status [] = None"
| "exit_status (Exit code # t) = Some code"
| "exit_status (e # t) = exit_status t"

text \<open>
  \<^verbatim>\<open>main\<close> starts the four servers as goroutines and blocks. The order in which the
  goroutines get to run is the scheduler's and is a parameter here. \<^verbatim>\<open>os.Exit\<close> in any
  goroutine ends the process with all its goroutines: those that were serving stop, those
  that had not run yet never do.
\<close>

record process =
  exit_code :: "nat option"
  serving :: "listener list"

fun go_all :: "world \<Rightarrow> listener list \<Rightarrow> process \<Rightarrow> process" where
  "go_all w [] p = p"
| "go_all w (l # ls) p =
     (case exit_code p of
        Some code \<Rightarrow> p
      | None \<Rightarrow>
          (case exit_status (fst (start w l) @ concat (snd (start w l))) of
             Some code \<Rightarrow> p\<lparr>exit_code := Some code, serving := []\<rparr>
           | None \<Rightarrow> go_all w ls (p\<lparr>serving := serving p @ [l]\<rparr>)))"

definition main :: "world \<Rightarrow> listener list \<Rightarrow> process" where
  "main w order = go_all w order \<lparr>exit_code = None, serving = []\<rparr>"

definition accepting :: "process \<Rightarrow> listener \<Rightarrow> bool" where
  "accepting p l = (exit_code p = None \<and> l \<in> set (serving p))"

section \<open>What is observed of a run\<close>

text \<open>The datagrams delivered to a loop, and the datagrams it handed back to a socket.\<close>

fun delivered :: "recv \<Rightarrow> (bytes \<times> addr) list" where
  "delivered (Datagram d a) = [(d, a)]"
| "delivered (RecvError err) = []"

fun reply :: "event \<Rightarrow> (bytes \<times> addr) list" where
  "reply (PacketWriteTo b a) = [(b, a)]"
| "reply _ = []"

definition replies :: "event list \<Rightarrow> (bytes \<times> addr) list" where
  "replies t = concat (map reply t)"

text \<open>The connections that \<^verbatim>\<open>Accept\<close> returned.\<close>

fun accepted :: "accept \<Rightarrow> conn list" where
  "accepted (Accepted c) = [c]"
| "accepted (AcceptError err) = []"

text \<open>
  A log record mentions a text when the text occurs in it. A request is logged first
  when, before the first effect on the response writer, one log record mentions its
  method, its URL as \<^verbatim>\<open>%s\<close> prints it and the address of its peer.
\<close>

fun mentions :: "string \<Rightarrow> event \<Rightarrow> bool" where
  "mentions s (Log t) = sublist s t"
| "mentions s _ = False"





text \<open>What one \<^verbatim>\<open>io.Copy\<close> to the standard output does, taken on its own.\<close>

definition copied :: "nat option \<Rightarrow> bytes \<Rightarrow> event list" where
  "copied room content = done_events (snd (io_Copy_Stdout room content new_frame))"

section \<open>Properties\<close>

subsection \<open>Frames and log records\<close>

lemmas frame_defs = new_frame_def emit_def go_defer_def func_return_def os_Exit_def
  log_Printf_def log_Println_def log_Fatalf_def log_Fatal_def

lemma exit_status_append:
  "exit_status (s @ t) = (case exit_status s of None \<Rightarrow> exit_status t | Some code \<Rightarrow> Some code)"
  by (induction s rule: exit_status.induct) simp_all

lemma new_frame_events [simp]: "done_events new_frame = []" "deferred new_frame = []"
  by (simp_all add: new_frame_def)

lemma emit_events [simp]:
  "done_events (emit e f) = done_events f @ [e]" "deferred (emit e f) = deferred f"
  by (simp_all add: emit_def)

lemma LF_not_Nil [simp]: "LF \<noteq> []"
  by (simp add: LF_def)

lemma log_line_LF [simp]: "log_line (s @ LF) = s @ LF" "log_line LF = LF"
  by (simp_all add: log_line_def LF_def)

lemma log_line_Cons [simp]: "s \<noteq> [] \<Longrightarrow> log_line (c # s) = c # log_line s"
  by (simp add: log_line_def)

lemma log_line_append [simp]: "s \<noteq> [] \<Longrightarrow> log_line (a @ s) = a @ log_line s"
  by (simp add: log_line_def)

lemma log_Printf_events [simp]:
  "done_events (log_Printf s f) = done_events f @ [Log (log_line s)]"
  by (simp add: log_Printf_def)

lemma log_Println_events [simp]:
  "done_events (log_Println s f) = done_events f @ [Log (s @ LF)]"
  by (simp add: log_Println_def)

text \<open>What one read on the raw socket returns: the count, and the bytes it stands for.\<close>

lemma IPConn_ReadFrom_error: "IPConn_ReadFrom buf (IPRecvError err) = (buf, Inl err)"
  by (simp add: IPConn_ReadFrom_def)

lemma read_into_length:
  "length (take (min (length p) (length buf)) p @ drop (min (length p) (length buf)) buf)
     = length buf"
  by (simp add: min_def)

lemma stripIPv4Header_count:
  "fst (stripIPv4Header n b l)
     = (if length b < 20 \<or> l < 20 \<or> length b < l then n else n - l)"
  by (simp add: stripIPv4Header_def)

lemma stripIPv4Header_length: "length (snd (stripIPv4Header n b l)) = length b"
  by (simp add: stripIPv4Header_def)

lemma IPConn_ReadFrom_packet:
  "IPConn_ReadFrom buf (IPPacket hdr d a)
     = (snd (stripIPv4Header (min (length (hdr @ d)) (length buf))
               (take (min (length (hdr @ d)) (length buf)) (hdr @ d)
                  @ drop (min (length (hdr @ d)) (length buf)) buf) (length hdr)),
        Inr (fst (stripIPv4Header (min (length (hdr @ d)) (length buf))
               (take (min (length (hdr @ d)) (length buf)) (hdr @ d)
                  @ drop (min (length (hdr @ d)) (length buf)) buf) (length hdr)), a))"
  by (simp add: IPConn_ReadFrom_def Let_def split_beta)

lemma IPConn_ReadFrom_result:
  "snd (IPConn_ReadFrom buf (IPPacket hdr d a))
     = Inr (if length buf < 20 \<or> length hdr < 20 \<or> length buf < length hdr
            then min (length hdr + length d) (length buf)
            else min (length hdr + length d) (length buf) - length hdr, a)"
  unfolding IPConn_ReadFrom_packet snd_conv stripIPv4Header_count read_into_length
  by simp

lemma IPConn_ReadFrom_length: "length (fst (IPConn_ReadFrom buf x)) = length buf"
proof (cases x)
  case (IPRecvError err)
  then show ?thesis by (simp add: IPConn_ReadFrom_def)
next
  case (IPPacket hdr d a)
  show ?thesis
    unfolding IPPacket IPConn_ReadFrom_packet fst_conv stripIPv4Header_length read_into_length
    by (rule refl)
qed

lemma IPConn_ReadFrom_kept:
  "take (if length buf < 20 \<or> length hdr < 20 \<or> length buf < length hdr
         then min (length hdr + length d) (length buf)
         else min (length hdr + length d) (length buf) - length hdr)
     (fst (IPConn_ReadFrom buf (IPPacket hdr d a)))
   = (if length buf < 20 \<or> length hdr < 20 \<or> length buf < length hdr
      then take (length buf) (hdr @ d)
      else take (length buf - length hdr) d)"
proof (cases "length buf < 20 \<or> length hdr < 20 \<or> length buf < length hdr")
  case True
  define n where "n = min (length (hdr @ d)) (length buf)"
  define b where "b = take n (hdr @ d) @ drop n buf"
  have lb: "length b = length buf"
    unfolding b_def n_def by (rule read_into_length)
  have "fst (IPConn_ReadFrom buf (IPPacket hdr d a)) = b"
    using True lb unfolding IPConn_ReadFrom_packet fst_conv n_def [symmetric] b_def [symmetric]
    by (auto simp: stripIPv4Header_def)
  moreover have "take n b = take (length buf) (hdr @ d)"
    by (simp add: b_def n_def min_def)
  ultimately show ?thesis using True by (simp add: n_def)
next
  case False
  then have l: "20 \<le> length buf" "20 \<le> length hdr" "length hdr \<le> length buf"
    by simp_all
  define n where "n = min (length hdr + length d) (length buf)"
  have ln: "length hdr \<le> n" using l by (simp add: n_def)
  have n: "n \<le> length buf" by (simp add: n_def)
  define b where "b = take n (hdr @ d) @ drop n buf"
  have lb: "length b = length buf"
    unfolding b_def n_def using read_into_length [of "hdr @ d" buf] by simp
  have fst: "fst (IPConn_ReadFrom buf (IPPacket hdr d a))
      = drop (length hdr) b @ drop (length b - length hdr) b"
    using l lb unfolding IPConn_ReadFrom_packet fst_conv
    by (simp add: stripIPv4Header_def n_def b_def)
  have db: "drop (length hdr) b = take (n - length hdr) d @ drop n buf"
    using ln by (simp add: b_def drop_take)
  have "take (n - length hdr) (drop (length hdr) b @ drop (length b - length hdr) b)
      = take (n - length hdr) d"
    using ln n by (simp add: db n_def)
  moreover have "take (n - length hdr) d = take (length buf - length hdr) d"
    using l by (simp add: n_def min_def)
  ultimately show ?thesis using False by (simp add: fst n_def)
qed


subsection \<open>The echo loops\<close>

lemma UDPConn_ReadFrom_length: "length (fst (UDPConn_ReadFrom buf x)) = length buf"
  by (cases x) (simp_all add: UDPConn_ReadFrom_def Let_def)

lemma dns_loop_error:
  "dns_loop buf (RecvError err # xs) f
     = dns_loop buf xs (log_Printf (''Error reading from DNS: '' @ err @ LF) f)"
  by (simp add: UDPConn_ReadFrom_def)

lemma dns_loop_datagram:
  "dns_loop buf (Datagram d a # xs) f
     = dns_loop (fst (UDPConn_ReadFrom buf (Datagram d a))) xs
         (emit (PacketWriteTo (take (length buf) d) a)
            (log_Printf (''DNS Request from '' @ a @ '': '' @ hex (take (length buf) d) @ LF) f))"
proof -
  have "take (min (length d) (length buf)) d = take (length buf) d"
    by (simp add: min_def)
  then show ?thesis
    by (simp add: UDPConn_ReadFrom_def Let_def)
qed

lemma icmp_loop_error:
  "icmp_loop buf (IPRecvError err # xs) f
     = icmp_loop buf xs (log_Printf (''Error reading ICMP: '' @ err @ LF) f)"
  by (simp add: IPConn_ReadFrom_def)

lemma icmp_loop_packet:
  "icmp_loop buf (IPPacket hdr d a # xs) f
     = icmp_loop (fst (IPConn_ReadFrom buf (IPPacket hdr d a))) xs
         (emit (PacketWriteTo
                 (if length buf < 20 \<or> length hdr < 20 \<or> length buf < length hdr
                  then take (length buf) (hdr @ d)
                  else take (length buf - length hdr) d) a)
            (log_Printf (''ICMP Request from '' @ a @ LF) f))"
proof -
  obtain b res where eq: "IPConn_ReadFrom buf (IPPacket hdr d a) = (b, res)"
    by (cases "IPConn_ReadFrom buf (IPPacket hdr d a)")
  define n where "n = (if length buf < 20 \<or> length hdr < 20 \<or> length buf < length hdr
            then min (length hdr + length d) (length buf)
            else min (length hdr + length d) (length buf) - length hdr)"
  have res: "res = Inr (n, a)"
    using IPConn_ReadFrom_result [of buf hdr d a] by (simp add: eq n_def)
  have kept: "take n b = (if length buf < 20 \<or> length hdr < 20 \<or> length buf < length hdr
                  then take (length buf) (hdr @ d)
                  else take (length buf - length hdr) d)"
    using IPConn_ReadFrom_kept [of buf hdr d a] by (simp add: eq n_def)
  have "icmp_loop buf (IPPacket hdr d a # xs) f
     = icmp_loop b xs (emit (PacketWriteTo (take n b) a)
            (log_Printf (''ICMP Request from '' @ a @ LF) f))"
    by (simp add: eq res Let_def)
  then show ?thesis
    by (simp only: kept eq fst_conv)
qed

declare dns_loop.simps(2) [simp del] icmp_loop.simps(2) [simp del]

text \<open>The effects of a loop are added to those before it, whatever these are.\<close>

lemma dns_loop_frame:
  "done_events (dns_loop buf xs f) = done_events f @ done_events (dns_loop buf xs new_frame)"
proof (induction xs arbitrary: buf f)
  case Nil
  show ?case by simp
next
  case (Cons x xs)
  show ?case
  proof (cases x)
    case (RecvError err)
    show ?thesis
      unfolding RecvError dns_loop_error
      by (subst Cons.IH, subst (2) Cons.IH) simp
  next
    case (Datagram d a)
    show ?thesis
      unfolding Datagram dns_loop_datagram
      by (subst Cons.IH, subst (2) Cons.IH) simp
  qed
qed

lemma icmp_loop_frame:
  "done_events (icmp_loop buf xs f) = done_events f @ done_events (icmp_loop buf xs new_frame)"
proof (induction xs arbitrary: buf f)
  case Nil
  show ?case by simp
next
  case (Cons x xs)
  show ?case
  proof (cases x)
    case (IPRecvError err)
    show ?thesis
      unfolding IPRecvError icmp_loop_error
      by (subst Cons.IH, subst (2) Cons.IH) simp
  next
    case (IPPacket hdr d a)
    show ?thesis
      unfolding IPPacket icmp_loop_packet
      by (subst Cons.IH, subst (2) Cons.IH) simp
  qed
qed

text \<open>They depend on the length of the buffer only, not on what it holds.\<close>

lemma dns_loop_buffer:
  "length buf = length buf' \<Longrightarrow>
   done_events (dns_loop buf xs new_frame) = done_events (dns_loop buf' xs new_frame)"
proof (induction xs arbitrary: buf buf')
  case Nil
  show ?case by simp
next
  case (Cons x xs)
  show ?case
  proof (cases x)
    case (RecvError err)
    show ?thesis
      unfolding RecvError dns_loop_error
      by (subst dns_loop_frame, subst (2) dns_loop_frame) (simp add: Cons.IH [OF Cons.prems])
  next
    case (Datagram d a)
    have "length (fst (UDPConn_ReadFrom buf (Datagram d a)))
        = length (fst (UDPConn_ReadFrom buf' (Datagram d a)))"
      using Cons.prems by (simp add: UDPConn_ReadFrom_length)
    from Cons.IH [OF this] show ?thesis
      unfolding Datagram dns_loop_datagram
      by (subst dns_loop_frame, subst (2) dns_loop_frame) (simp add: Cons.prems)
  qed
qed

lemma icmp_loop_buffer:
  "length buf = length buf' \<Longrightarrow>
   done_events (icmp_loop buf xs new_frame) = done_events (icmp_loop buf' xs new_frame)"
proof (induction xs arbitrary: buf buf')
  case Nil
  show ?case by simp
next
  case (Cons x xs)
  show ?case
  proof (cases x)
    case (IPRecvError err)
    show ?thesis
      unfolding IPRecvError icmp_loop_error
      by (subst icmp_loop_frame, subst (2) icmp_loop_frame) (simp add: Cons.IH [OF Cons.prems])
  next
    case (IPPacket hdr d a)
    have "length (fst (IPConn_ReadFrom buf (IPPacket hdr d a)))
        = length (fst (IPConn_ReadFrom buf' (IPPacket hdr d a)))"
      using Cons.prems by (simp add: IPConn_ReadFrom_length)
    from Cons.IH [OF this] show ?thesis
      unfolding IPPacket icmp_loop_packet
      by (subst icmp_loop_frame, subst (2) icmp_loop_frame) (simp add: Cons.prems)
  qed
qed

text \<open>One iteration, and a run as the iterations one after the other.\<close>

lemma dns_loop_one_datagram:
  "done_events (dns_loop buf [Datagram d a] new_frame)
     = [Log (''DNS Request from '' @ a @ '': '' @ hex (take (length buf) d) @ LF),
        PacketWriteTo (take (length buf) d) a]"
  by (simp add: dns_loop_datagram)

lemma dns_loop_one_error:
  "done_events (dns_loop buf [RecvError err] new_frame)
     = [Log (''Error reading from DNS: '' @ err @ LF)]"
  by (simp add: dns_loop_error)

lemma icmp_loop_one_packet:
  "done_events (icmp_loop buf [IPPacket hdr d a] new_frame)
     = [Log (''ICMP Request from '' @ a @ LF),
        PacketWriteTo
          (if length buf < 20 \<or> length hdr < 20 \<or> length buf < length hdr
           then take (length buf) (hdr @ d)
           else take (length buf - length hdr) d) a]"
  by (simp add: icmp_loop_packet)

lemma icmp_loop_one_error:
  "done_events (icmp_loop buf [IPRecvError err] new_frame)
     = [Log (''Error reading ICMP: '' @ err @ LF)]"
  by (simp add: icmp_loop_error)

lemma dns_loop_Cons:
  "done_events (dns_loop buf (x # xs) f)
     = done_events f @ done_events (dns_loop buf [x] new_frame)
         @ done_events (dns_loop buf xs new_frame)"
proof -
  have b: "done_events (dns_loop (fst (UDPConn_ReadFrom buf x)) xs new_frame)
      = done_events (dns_loop buf xs new_frame)"
    by (rule dns_loop_buffer) (rule UDPConn_ReadFrom_length)
  show ?thesis
  proof (cases x)
    case (RecvError err)
    show ?thesis
      unfolding RecvError dns_loop_error
      by (subst dns_loop_frame) (simp add: dns_loop_one_error [unfolded dns_loop_error])
  next
    case (Datagram d a)
    show ?thesis
      unfolding Datagram dns_loop_datagram
      by (subst dns_loop_frame) (simp add: b [unfolded Datagram])
  qed
qed

lemma icmp_loop_Cons:
  "done_events (icmp_loop buf (x # xs) f)
     = done_events f @ done_events (icmp_loop buf [x] new_frame)
         @ done_events (icmp_loop buf xs new_frame)"
proof -
  have b: "done_events (icmp_loop (fst (IPConn_ReadFrom buf x)) xs new_frame)
      = done_events (icmp_loop buf xs new_frame)"
    by (rule icmp_loop_buffer) (rule IPConn_ReadFrom_length)
  show ?thesis
  proof (cases x)
    case (IPRecvError err)
    show ?thesis
      unfolding IPRecvError icmp_loop_error
      by (subst icmp_loop_frame) (simp add: icmp_loop_one_error [unfolded icmp_loop_error])
  next
    case (IPPacket hdr d a)
    show ?thesis
      unfolding IPPacket icmp_loop_packet
      by (subst icmp_loop_frame) (simp add: b [unfolded IPPacket])
  qed
qed

lemma dns_loop_append:
  "done_events (dns_loop buf (xs @ ys) f)
     = done_events (dns_loop buf xs f) @ done_events (dns_loop buf ys new_frame)"
proof (induction xs arbitrary: f)
  case Nil
  show ?case by (simp add: dns_loop_frame [of buf ys f])
next
  case (Cons x xs)
  show ?case
    using Cons.IH [of new_frame]
    by (simp add: dns_loop_Cons [of buf x "xs @ ys"] dns_loop_Cons [of buf x xs])
qed

lemma icmp_loop_append:
  "done_events (icmp_loop buf (xs @ ys) f)
     = done_events (icmp_loop buf xs f) @ done_events (icmp_loop buf ys new_frame)"
proof (induction xs arbitrary: f)
  case Nil
  show ?case by (simp add: icmp_loop_frame [of buf ys f])
next
  case (Cons x xs)
  show ?case
    using Cons.IH [of new_frame]
    by (simp add: icmp_loop_Cons [of buf x "xs @ ys"] icmp_loop_Cons [of buf x xs])
qed


subsection \<open>The echo listeners\<close>

lemma replies_append: "replies (s @ t) = replies s @ replies t"
  by (simp add: replies_def)

lemma replies_Log: "replies (Log s # t) = replies t"
  by (simp add: replies_def)

lemma startDNSServer_events:
  "fst (startDNSServer None inbound)
     = Log (''DNS server is listening on port 53'' @ LF)
         # done_events (dns_loop (replicate 512 (CHR 0x00)) inbound new_frame)"
  by (simp add: startDNSServer_def Let_def go_defer_def
      dns_loop_frame [of _ inbound "log_Println _ _"])

lemma startICMPServer_events:
  "fst (startICMPServer None inbound)
     = Log (''ICMP server is listening'' @ LF)
         # done_events (icmp_loop (replicate 1024 (CHR 0x00)) inbound new_frame)"
  by (simp add: startICMPServer_def Let_def go_defer_def
      icmp_loop_frame [of _ inbound "log_Println _ _"])

lemma startDNSServer_append:
  "fst (startDNSServer None (xs @ ys))
     = fst (startDNSServer None xs) @ tl (fst (startDNSServer None ys))"
  by (simp add: startDNSServer_events dns_loop_append)

lemma startICMPServer_append:
  "fst (startICMPServer None (xs @ ys))
     = fst (startICMPServer None xs) @ tl (fst (startICMPServer None ys))"
  by (simp add: startICMPServer_events icmp_loop_append)

lemma startDNSServer_Cons:
  "tl (fst (startDNSServer None (x # xs)))
     = tl (fst (startDNSServer None [x])) @ tl (fst (startDNSServer None xs))"
  by (simp add: startDNSServer_events dns_loop_Cons [of _ x xs])

lemma startICMPServer_Cons:
  "tl (fst (startICMPServer None (x # xs)))
     = tl (fst (startICMPServer None [x])) @ tl (fst (startICMPServer None xs))"
  by (simp add: startICMPServer_events icmp_loop_Cons [of _ x xs])

lemma exit_status_dns_loop: "exit_status (done_events (dns_loop buf xs new_frame)) = None"
proof (induction xs)
  case Nil
  show ?case by simp
next
  case (Cons x xs)
  have "exit_status (done_events (dns_loop buf [x] new_frame)) = None"
    by (cases x) (simp_all only: dns_loop_one_datagram dns_loop_one_error, simp_all)
  with Cons show ?case
    by (simp add: dns_loop_Cons [of buf x xs] exit_status_append)
qed

lemma exit_status_icmp_loop: "exit_status (done_events (icmp_loop buf xs new_frame)) = None"
proof (induction xs)
  case Nil
  show ?case by simp
next
  case (Cons x xs)
  have "exit_status (done_events (icmp_loop buf [x] new_frame)) = None"
    by (cases x) (simp_all only: icmp_loop_one_packet icmp_loop_one_error, simp_all)
  with Cons show ?case
    by (simp add: icmp_loop_Cons [of buf x xs] exit_status_append)
qed

text \<open>
  Every datagram delivered to the UDP listener is answered once, in the order of arrival,
  with its first 512 bytes; receive errors are answered with nothing.
\<close>

lemma dns_loop_replies:
  "replies (done_events (dns_loop buf xs new_frame))
     = map (\<lambda>(d, a). (take (length buf) d, a)) (concat (map delivered xs))"
proof (induction xs)
  case Nil
  show ?case by (simp add: replies_def)
next
  case (Cons x xs)
  have "replies (done_events (dns_loop buf [x] new_frame))
      = map (\<lambda>(d, a). (take (length buf) d, a)) (delivered x)"
    by (cases x) (simp_all add: dns_loop_one_datagram dns_loop_one_error replies_def)
  with Cons show ?case
    by (simp add: dns_loop_Cons [of buf x xs] replies_append)
qed

lemma startDNSServer_replies:
  "replies (fst (startDNSServer None inbound))
     = map (\<lambda>(d, a). (take 512 d, a)) (concat (map delivered inbound))"
  by (simp add: startDNSServer_events dns_loop_replies replies_Log)

text \<open>
  C2, amended. A datagram \<open>B\<close> of at most 512 bytes is sent back to its sender byte for
  byte, once, in its place among the replies. On the raw socket the header of the packet
  is read into the 1024 bytes of the buffer too: a payload \<open>B\<close> that fits the buffer
  together with its header is sent back byte for byte, and of a longer one only what
  fitted beside the header.
\<close>

theorem echo_reply_exact:
  "(length B \<le> 512 \<longrightarrow>
      replies (fst (startDNSServer None (before @ Datagram B a # after)))
        = replies (fst (startDNSServer None before)) @ (B, a)
            # replies (fst (startDNSServer None after)))
   \<and> (20 \<le> length hdr \<and> length hdr + length B \<le> 1024 \<longrightarrow>
      replies (fst (startICMPServer None (before' @ IPPacket hdr B a # after')))
        = replies (fst (startICMPServer None before')) @ (B, a)
            # replies (fst (startICMPServer None after')))
   \<and> (20 \<le> length hdr \<and> length hdr \<le> 1024 \<longrightarrow>
      replies (fst (startICMPServer None (before' @ IPPacket hdr B a # after')))
        = replies (fst (startICMPServer None before')) @ (take (1024 - length hdr) B, a)
            # replies (fst (startICMPServer None after')))"
proof -
  have dns: "replies (fst (startDNSServer None (before @ Datagram B a # after)))
        = replies (fst (startDNSServer None before)) @ (take 512 B, a)
            # replies (fst (startDNSServer None after))"
    by (simp add: startDNSServer_replies)
  have one: "20 \<le> length hdr \<Longrightarrow> length hdr \<le> 1024 \<Longrightarrow>
      replies (done_events (icmp_loop (replicate 1024 (CHR 0x00)) [IPPacket hdr B a] new_frame))
        = [(take (1024 - length hdr) B, a)]"
    by (simp add: icmp_loop_one_packet replies_def)
  have icmp: "20 \<le> length hdr \<Longrightarrow> length hdr \<le> 1024 \<Longrightarrow>
      replies (fst (startICMPServer None (before' @ IPPacket hdr B a # after')))
        = replies (fst (startICMPServer None before')) @ (take (1024 - length hdr) B, a)
            # replies (fst (startICMPServer None after'))"
    using one
    by (simp add: startICMPServer_events icmp_loop_append
        icmp_loop_Cons [of _ "IPPacket hdr B a" after'] replies_append replies_Log)
  have fits: "20 \<le> length hdr \<and> length hdr + length B \<le> 1024 \<Longrightarrow>
      take (1024 - length hdr) B = B \<and> length hdr \<le> 1024"
  proof -
    assume h: "20 \<le> length hdr \<and> length hdr + length B \<le> 1024"
    then have "length B \<le> 1024 - length hdr" by arith
    with h show ?thesis by simp
  qed
  show ?thesis
    using dns icmp fits by auto
qed

theorem echo_reply_exact_witness:
  "length ''ping'' \<le> 512
   \<and> 20 \<le> length (CHR 0x45 # replicate 19 (CHR 0x00))
   \<and> length (CHR 0x45 # replicate 19 (CHR 0x00)) + length ''ping'' \<le> 1024
   \<and> replies (fst (startDNSServer None
         ([RecvError ''i/o timeout''] @ Datagram ''ping'' ''192.0.2.7:5353''
            # [Datagram ''x'' ''192.0.2.9:53''])))
     = [(''ping'', ''192.0.2.7:5353''), (''x'', ''192.0.2.9:53'')]
   \<and> replies (fst (startICMPServer None
         ([IPRecvError ''i/o timeout''] @ IPPacket (CHR 0x45 # replicate 19 (CHR 0x00)) ''ping''
            ''192.0.2.7'' # [])))
     = [(''ping'', ''192.0.2.7'')]"
proof -
  have "replies (fst (startDNSServer None [RecvError ''i/o timeout''])) = []"
    by (simp add: startDNSServer_replies)
  moreover have "replies (fst (startDNSServer None [Datagram ''x'' ''192.0.2.9:53'']))
      = [(''x'', ''192.0.2.9:53'')]"
    by (simp add: startDNSServer_replies)
  moreover have "replies (fst (startICMPServer None [IPRecvError ''i/o timeout''])) = []"
    by (simp add: startICMPServer_events icmp_loop_one_error replies_def)
  moreover have "replies (fst (startICMPServer None [])) = []"
    by (simp add: startICMPServer_events replies_def)
  ultimately show ?thesis
    using echo_reply_exact [where B = "''ping''" and before = "[RecvError ''i/o timeout'']"
        and a = "''192.0.2.7:5353''" and after = "[Datagram ''x'' ''192.0.2.9:53'']"
        and hdr = "CHR 0x45 # replicate 19 (CHR 0x00)" and before' = "[]" and after' = "[]"]
      echo_reply_exact [where B = "''ping''" and before = "[]" and a = "''192.0.2.7''"
        and after = "[]" and hdr = "CHR 0x45 # replicate 19 (CHR 0x00)"
        and before' = "[IPRecvError ''i/o timeout'']" and after' = "[]"]
    by simp
qed

text \<open>
  A payload of 1005 bytes behind a header of 20 bytes is within the 1024 bytes of the
  claim, yet the packet does not fit the buffer: the reply is the first 1004 bytes.
\<close>

theorem raw_echo_truncated_counterexample:
  "length (replicate 1005 (CHR ''A'')) \<le> 1024
   \<and> replies (fst (startICMPServer None
         [IPPacket (CHR 0x45 # replicate 19 (CHR 0x00)) (replicate 1005 (CHR ''A''))
            ''192.0.2.7'']))
     = [(replicate 1004 (CHR ''A''), ''192.0.2.7'')]
   \<and> replicate 1004 (CHR ''A'') \<noteq> replicate 1005 (CHR ''A'')"
  by (simp add: startICMPServer_events icmp_loop_one_packet replies_def)

text \<open>
  C8. A receive error on the datagram listener or on the raw listener adds exactly one
  log record, with the error in it, to what the listener has done; the listener does not
  return and does not exit, it goes on with the units that arrive afterwards as if it had
  just started, and the replies are those of the run without the error.
\<close>

theorem receive_error_logged_loop_continues:
  "fst (startDNSServer None (before @ RecvError err # after))
     = fst (startDNSServer None before)
         @ Log (''Error reading from DNS: '' @ err @ LF)
         # tl (fst (startDNSServer None after))
   \<and> fst (startDNSServer None []) = [Log (''DNS server is listening on port 53'' @ LF)]
   \<and> replies (fst (startDNSServer None (before @ RecvError err # after)))
       = replies (fst (startDNSServer None (before @ after)))
   \<and> exit_status (fst (startDNSServer None inbound)) = None
   \<and> fst (startICMPServer None (before' @ IPRecvError err # after'))
     = fst (startICMPServer None before')
         @ Log (''Error reading ICMP: '' @ err @ LF)
         # tl (fst (startICMPServer None after'))
   \<and> fst (startICMPServer None []) = [Log (''ICMP server is listening'' @ LF)]
   \<and> replies (fst (startICMPServer None (before' @ IPRecvError err # after')))
       = replies (fst (startICMPServer None (before' @ after')))
   \<and> exit_status (fst (startICMPServer None inbound')) = None"
proof (intro conjI)
  show d: "fst (startDNSServer None (before @ RecvError err # after))
     = fst (startDNSServer None before)
         @ Log (''Error reading from DNS: '' @ err @ LF)
         # tl (fst (startDNSServer None after))"
    by (simp add: startDNSServer_append startDNSServer_Cons [of "RecvError err" after])
      (simp add: startDNSServer_events dns_loop_one_error)
  show "fst (startDNSServer None []) = [Log (''DNS server is listening on port 53'' @ LF)]"
    by (simp add: startDNSServer_events)
  show "replies (fst (startDNSServer None (before @ RecvError err # after)))
       = replies (fst (startDNSServer None (before @ after)))"
    by (simp only: d startDNSServer_append [of before after] replies_append replies_Log)
  show "exit_status (fst (startDNSServer None inbound)) = None"
    by (simp add: startDNSServer_events exit_status_dns_loop)
  show i: "fst (startICMPServer None (before' @ IPRecvError err # after'))
     = fst (startICMPServer None before')
         @ Log (''Error reading ICMP: '' @ err @ LF)
         # tl (fst (startICMPServer None after'))"
    by (simp add: startICMPServer_append startICMPServer_Cons [of "IPRecvError err" after'])
      (simp add: startICMPServer_events icmp_loop_one_error)
  show "fst (startICMPServer None []) = [Log (''ICMP server is listening'' @ LF)]"
    by (simp add: startICMPServer_events)
  show "replies (fst (startICMPServer None (before' @ IPRecvError err # after')))
       = replies (fst (startICMPServer None (before' @ after')))"
    by (simp only: i startICMPServer_append [of before' after'] replies_append replies_Log)
  show "exit_status (fst (startICMPServer None inbound')) = None"
    by (simp add: startICMPServer_events exit_status_icmp_loop)
qed


subsection \<open>The multiplexer\<close>

lemma cleanPath_rooted: "\<exists>t. cleanPath p = CHR ''/'' # t"
proof (cases p)
  case Nil
  then show ?thesis by (simp add: cleanPath_def)
next
  case (Cons c cs)
  then show ?thesis
    by (auto simp: cleanPath_def path_Clean_def Let_def)
qed

lemma clean_is_rooted:
  assumes "cleanPath p = p"
  shows "prefix ''/'' p" and "p \<noteq> ''*''" and "p \<noteq> []"
  using cleanPath_rooted [of p] assms by auto

lemma cleanPath_upload: "cleanPath ''/upload'' = ''/upload''"
  by (simp add: cleanPath_def path_Clean_def Let_def)

lemma no_slash_redirect: "shouldRedirect DefaultServeMux p = False"
proof -
  have "p @ ''/'' \<noteq> ''/upload''"
  proof
    assume "p @ ''/'' = ''/upload''"
    then have "last (p @ ''/'') = last ''/upload''" by simp
    then show False by simp
  qed
  then show ?thesis
    by (auto simp: shouldRedirect_def DefaultServeMux_def)
qed

lemma mux_handler_rooted:
  "prefix ''/'' p \<Longrightarrow>
   mux_handler p r room = (if p = ''/upload'' then uploadHandler r room else rootHandler r room)"
  by (simp add: mux_handler_def DefaultServeMux_def pattern_matches_def)

lemma ServeHTTP_clean:
  assumes "cleanPath (Path (URL r)) = Path (URL r)"
  shows "ServeHTTP r room
       = (if Path (URL r) = ''/upload'' then uploadHandler r room else rootHandler r room)"
  using assms clean_is_rooted [OF assms]
  by (simp add: ServeHTTP_def Let_def no_slash_redirect mux_handler_rooted cleanPath_upload)

lemma ServeHTTP_upload:
  "Path (URL r) = ''/upload'' \<Longrightarrow> ServeHTTP r room = uploadHandler r room"
  using ServeHTTP_clean [of r room] by (simp add: cleanPath_upload)


lemma http_Redirect_events:
  "http_Redirect r u code =
     SetHeader ''Location'' (hexEscapeNonASCII u)
       # (if Method r = ''GET'' \<or> Method r = ''HEAD''
          then [SetHeader ''Content-Type'' ''text/html; charset=utf-8''] else [])
       @ WriteHeader code
       # (if Method r = ''GET''
          then [RespWrite (''<a href='' @ [CHR 0x22] @ htmlEscape u @ [CHR 0x22]
                  @ ''>Moved Permanently</a>.'' @ LF @ LF)]
          else [])"
  by (simp add: http_Redirect_def Let_def func_return_def)


subsection \<open>The handlers, effect by effect\<close>

lemma http_Error_events:
  "func_return (http_Error msg code f) =
     done_events f @
     [SetHeader ''Content-Type'' ''text/plain; charset=utf-8'',
      SetHeader ''X-Content-Type-Options'' ''nosniff'', WriteHeader code,
      RespWrite (msg @ LF)] @ deferred f"
  by (simp add: http_Error_def emit_def func_return_def)

lemma rootHandler_events:
  "rootHandler r room =
     [Log (''HTTP Request: '' @ Method r @ '' '' @ url_String (URL r) @ '' from ''
             @ RemoteAddr r @ LF),
      RespWrite (''HTTP server is working!'' @ LF)]"
  by (simp add: rootHandler_def frame_defs log_line_def LF_def)

lemma uploadHandler_not_post:
  "Method r \<noteq> ''POST'' \<Longrightarrow>
   uploadHandler r room =
     [SetHeader ''Content-Type'' ''text/plain; charset=utf-8'',
      SetHeader ''X-Content-Type-Options'' ''nosniff'', WriteHeader 405,
      RespWrite (''Invalid method'' @ LF)]"
  by (simp add: uploadHandler_def MethodPost_def StatusMethodNotAllowed_def http_Error_events)

lemma uploadHandler_no_file:
  "Method r = ''POST'' \<Longrightarrow>
   (case Multipart r of None \<Rightarrow> True | Some parts \<Rightarrow> map_of parts ''file'' = None) \<Longrightarrow>
   uploadHandler r room =
     [ParseMultipart,
      SetHeader ''Content-Type'' ''text/plain; charset=utf-8'',
      SetHeader ''X-Content-Type-Options'' ''nosniff'', WriteHeader 400,
      RespWrite (''Failed to get file'' @ LF)]"
  by (simp add: uploadHandler_def MethodPost_def StatusBadRequest_def FormFile_def
      http_Error_events emit_def new_frame_def split: option.splits)

lemma io_Copy_Stdout_events:
  "done_events (snd (io_Copy_Stdout room content f)) = done_events f @ copied room content"
  by (simp add: copied_def io_Copy_Stdout_def emit_def new_frame_def split: option.splits)

lemma io_Copy_Stdout_deferred:
  "deferred (snd (io_Copy_Stdout room content f)) = deferred f"
  by (simp add: io_Copy_Stdout_def emit_def split: option.splits)

lemma uploadHandler_file:
  "Method r = ''POST'' \<Longrightarrow> Multipart r = Some parts \<Longrightarrow> map_of parts ''file'' = Some content \<Longrightarrow>
   uploadHandler r room =
     [ParseMultipart, Log (''File uploaded successfully'' @ LF)] @ copied room content
       @ [RespWrite (''File upload successful'' @ LF), FileClose]"
  by (simp add: uploadHandler_def MethodPost_def FormFile_def Let_def func_return_def
      io_Copy_Stdout_events io_Copy_Stdout_deferred emit_def go_defer_def log_Println_def
      log_line_def LF_def new_frame_def)


lemma copied_cases: "copied room content = [] \<or> (\<exists>b. copied room content = [StdoutWrite b])"
  by (simp add: copied_def io_Copy_Stdout_def emit_def new_frame_def split: option.splits)

lemmas response_defs = response_of_def new_response_def implicit_header_def StatusOK_def

lemma fold_resp_event_copied [simp]: "fold resp_event (copied room content) w = w"
  using copied_cases [of room content] by auto

text \<open>
  C5. A request to \<^verbatim>\<open>/upload\<close> with a method other than POST is answered 405, and the
  effects of the handler are those of the one \<^verbatim>\<open>http.Error\<close> call: the form is not
  parsed and nothing is written to the standard output.
\<close>

theorem upload_non_post_405:
  assumes "Path (URL r) = ''/upload''" and "Method r \<noteq> ''POST''"
  shows "status (response_of (ServeHTTP r room)) = 405
       \<and> body (response_of (ServeHTTP r room)) = ''Invalid method'' @ LF
       \<and> ServeHTTP r room
           = func_return (http_Error ''Invalid method'' StatusMethodNotAllowed new_frame)
       \<and> ParseMultipart \<notin> set (ServeHTTP r room)
       \<and> stdout_of (ServeHTTP r room) = []"
  using assms
  by (simp add: ServeHTTP_upload uploadHandler_not_post http_Error_events
      StatusMethodNotAllowed_def response_defs stdout_of_def)

theorem upload_non_post_405_witness:
  "status (response_of (ServeHTTP
      \<lparr>Method = ''GET'', URL = \<lparr>Path = ''/upload'', RawPath = [], ForceQuery = False, RawQuery = []\<rparr>,
        RemoteAddr = ''192.0.2.7:40000'', Multipart = Some [(''file'', ''abc'')]\<rparr> None)) = 405
   \<and> stdout_of (ServeHTTP
      \<lparr>Method = ''GET'', URL = \<lparr>Path = ''/upload'', RawPath = [], ForceQuery = False, RawQuery = []\<rparr>,
        RemoteAddr = ''192.0.2.7:40000'', Multipart = Some [(''file'', ''abc'')]\<rparr> None) = []"
proof -
  have "Path (URL \<lparr>Method = ''GET'', URL = \<lparr>Path = ''/upload'', RawPath = [], ForceQuery = False, RawQuery = []\<rparr>,
        RemoteAddr = ''192.0.2.7:40000'', Multipart = Some [(''file'', ''abc'')]\<rparr>) = ''/upload''"
    by simp
  moreover have "Method \<lparr>Method = ''GET'', URL = \<lparr>Path = ''/upload'', RawPath = [], ForceQuery = False, RawQuery = []\<rparr>,
        RemoteAddr = ''192.0.2.7:40000'', Multipart = Some [(''file'', ''abc'')]\<rparr> \<noteq> ''POST''"
    by simp
  ultimately show ?thesis
    using upload_non_post_405 [of
      "\<lparr>Method = ''GET'', URL = \<lparr>Path = ''/upload'', RawPath = [], ForceQuery = False, RawQuery = []\<rparr>,
        RemoteAddr = ''192.0.2.7:40000'', Multipart = Some [(''file'', ''abc'')]\<rparr>" None]
    by blast
qed

text \<open>
  C6. A POST to \<^verbatim>\<open>/upload\<close> whose body is not a well-formed multipart form, or has no
  part named \<^verbatim>\<open>file\<close>, is answered 400 with the message \<^verbatim>\<open>Failed to get file\<close>, and
  nothing is written to the standard output.
\<close>

theorem upload_missing_file_400:
  assumes "Path (URL r) = ''/upload''" and "Method r = ''POST''"
    and "case Multipart r of None \<Rightarrow> True | Some parts \<Rightarrow> ''file'' \<notin> fst ` set parts"
  shows "status (response_of (ServeHTTP r room)) = 400
       \<and> body (response_of (ServeHTTP r room)) = ''Failed to get file'' @ LF
       \<and> stdout_of (ServeHTTP r room) = []"
proof -
  from assms(3) have "case Multipart r of None \<Rightarrow> True | Some parts \<Rightarrow> map_of parts ''file'' = None"
    by (simp add: map_of_eq_None_iff split: option.splits)
  with assms(1,2) show ?thesis
    by (simp add: ServeHTTP_upload uploadHandler_no_file response_defs stdout_of_def)
qed

theorem upload_missing_file_400_witness:
  "status (response_of (ServeHTTP
      \<lparr>Method = ''POST'', URL = \<lparr>Path = ''/upload'', RawPath = [], ForceQuery = False, RawQuery = []\<rparr>,
        RemoteAddr = ''192.0.2.7:40000'', Multipart = Some [(''avatar'', ''abc'')]\<rparr> None)) = 400
   \<and> stdout_of (ServeHTTP
      \<lparr>Method = ''POST'', URL = \<lparr>Path = ''/upload'', RawPath = [], ForceQuery = False, RawQuery = []\<rparr>,
        RemoteAddr = ''192.0.2.7:40000'', Multipart = Some [(''avatar'', ''abc'')]\<rparr> None) = []"
  using upload_missing_file_400 [of
      "\<lparr>Method = ''POST'', URL = \<lparr>Path = ''/upload'', RawPath = [], ForceQuery = False, RawQuery = []\<rparr>,
        RemoteAddr = ''192.0.2.7:40000'', Multipart = Some [(''avatar'', ''abc'')]\<rparr>" None]
  by simp









subsection \<open>Which paths reach the root handler\<close>









subsection \<open>The greeting handler\<close>

lemma smtp_handler_events:
  "smtp_handler c =
     [Log (''SMTP Connection from '' @ peer c @ LF),
      ConnWrite (''220 Simple SMTP Test Server'' @ LF), Sleep 10000000000, ConnClose]"
  by (simp add: smtp_handler_def conn_Write_def Second_def frame_defs log_line_def LF_def)

lemma smtp_loop_goroutines:
  "snd (smtp_loop xs (f, gs)) = gs @ map smtp_handler (concat (map accepted xs))"
  by (induction xs arbitrary: f gs) (simp_all split: accept.splits)

lemma exit_status_smtp_loop:
  "exit_status (done_events (fst (smtp_loop xs (f, gs)))) = exit_status (done_events f)"
  by (induction xs arbitrary: f gs)
    (simp_all add: log_Printf_def emit_def exit_status_append split: accept.splits option.splits)

text \<open>
  C3. The handler of an accepted connection logs the peer, writes the one line
  \<^verbatim>\<open>220 Simple SMTP Test Server\<close>, sleeps ten seconds and closes the connection, in
  this order and nothing else: it never reads, and it closes also when the write
  returns an error. The accept loop starts exactly this handler for every connection
  accepted.
\<close>

theorem smtp_handler_greets_waits_closes:
  "smtp_handler c =
     [Log (''SMTP Connection from '' @ peer c @ LF),
      ConnWrite (''220 Simple SMTP Test Server'' @ LF), Sleep (10 * Second), ConnClose]
   \<and> ConnRead \<notin> set (smtp_handler c)
   \<and> last (smtp_handler (c\<lparr>write_error := Some err\<rparr>)) = ConnClose
   \<and> snd (startSMTPServer None inbound) = map smtp_handler (concat (map accepted inbound))"
  by (simp add: smtp_handler_events Second_def startSMTPServer_def Let_def split_beta
      smtp_loop_goroutines)


subsection \<open>Which requests are logged\<close>










subsection \<open>A failed bind and the process\<close>

lemma exit_status_copied: "exit_status (copied room content @ t) = exit_status t"
  using copied_cases [of room content] by auto

lemma exit_status_ServeHTTP: "exit_status (ServeHTTP r room) = None"
proof -
  have up: "exit_status (uploadHandler r room) = None"
  proof (cases "Method r = ''POST''")
    case False
    then show ?thesis by (simp add: uploadHandler_not_post)
  next
    case post: True
    show ?thesis
    proof (cases "case Multipart r of None \<Rightarrow> True | Some parts \<Rightarrow> map_of parts ''file'' = None")
      case True
      with post show ?thesis by (simp add: uploadHandler_no_file)
    next
      case False
      then obtain parts content where f: "Multipart r = Some parts" "map_of parts ''file'' = Some content"
        by (auto split: option.splits)
      show ?thesis by (simp add: uploadHandler_file [OF post f] exit_status_copied)
    qed
  qed
  have nf: "exit_status http_NotFound = None"
    by (simp add: http_NotFound_def http_Error_events)
  have rd: "exit_status (http_Redirect r u code) = None" for u code
    by (simp add: http_Redirect_events)
  have mh: "exit_status (mux_handler p r room) = None" for p
    by (simp add: mux_handler_def DefaultServeMux_def up nf rootHandler_events)
  show ?thesis
    by (simp add: ServeHTTP_def Let_def rd mh frame_defs)
qed

lemma exit_status_requests:
  "exit_status (concat (map (\<lambda>(r, room). ServeHTTP r room) inbound)) = None"
  by (induction inbound) (auto simp: exit_status_append exit_status_ServeHTTP)

lemma exit_status_handlers: "exit_status (concat (map smtp_handler cs)) = None"
  by (induction cs) (simp_all add: exit_status_append smtp_handler_events)

lemma no_goroutines:
  "snd (startDNSServer bind inbound) = []" "snd (startICMPServer bind inbound') = []"
  by (simp_all add: startDNSServer_def startICMPServer_def Let_def split: option.splits)

lemma exit_status_start:
  "exit_status (fst (start w l) @ concat (snd (start w l)))
     = (case map_of (bind_errors w) l of None \<Rightarrow> None | Some err \<Rightarrow> Some 1)"
proof (cases l)
  case HTTP
  then show ?thesis
    by (simp add: startHTTPServer_def Let_def frame_defs exit_status_append
        exit_status_requests split: option.splits)
next
  case DNS
  show ?thesis
  proof (cases "map_of (bind_errors w) DNS")
    case None
    with DNS show ?thesis by (simp add: startDNSServer_events exit_status_dns_loop no_goroutines)
  next
    case (Some err)
    with DNS show ?thesis by (simp add: startDNSServer_def frame_defs)
  qed
next
  case ICMP
  show ?thesis
  proof (cases "map_of (bind_errors w) ICMP")
    case None
    with ICMP show ?thesis by (simp add: startICMPServer_events exit_status_icmp_loop no_goroutines)
  next
    case (Some err)
    with ICMP show ?thesis by (simp add: startICMPServer_def frame_defs)
  qed
next
  case SMTP
  show ?thesis
  proof (cases "map_of (bind_errors w) SMTP")
    case None
    have "exit_status (done_events (fst (smtp_loop (smtp_in w)
            (log_Println ''SMTP server is listening on port 25'' (go_defer EndpointClose new_frame), []))))
          = None"
      by (simp add: exit_status_smtp_loop log_Println_def emit_def go_defer_def)
    moreover have "exit_status (concat (snd (smtp_loop (smtp_in w)
            (log_Println ''SMTP server is listening on port 25'' (go_defer EndpointClose new_frame), []))))
          = None"
      by (simp add: smtp_loop_goroutines exit_status_handlers)
    ultimately show ?thesis using SMTP None
      by (simp add: startSMTPServer_def Let_def split_beta exit_status_append)
  next
    case (Some err)
    with SMTP show ?thesis by (simp add: startSMTPServer_def frame_defs)
  qed
qed

declare start.simps [simp del]

lemma go_all_exits:
  "exit_code p = None \<Longrightarrow> l \<in> set ls \<Longrightarrow> map_of (bind_errors w) l = Some err \<Longrightarrow>
   exit_code (go_all w ls p) = Some 1 \<and> serving (go_all w ls p) = []"
proof (induction ls arbitrary: p)
  case Nil
  then show ?case by simp
next
  case (Cons l' ls)
  show ?case
  proof (cases "map_of (bind_errors w) l'")
    case (Some err')
    with Cons.prems(1) show ?thesis by (simp add: exit_status_start)
  next
    case None
    with Cons.prems have "l \<in> set ls" by auto
    with Cons.IH [of "p\<lparr>serving := serving p @ [l']\<rparr>"] Cons.prems None
    show ?thesis by (simp add: exit_status_start)
  qed
qed

lemma go_all_serves:
  "exit_code p = None \<Longrightarrow> list_all (\<lambda>l. map_of (bind_errors w) l = None) ls \<Longrightarrow>
   go_all w ls p = p\<lparr>serving := serving p @ ls\<rparr>"
  by (induction ls arbitrary: p) (simp_all add: exit_status_start)

text \<open>When every bind succeeds the process stays up and all its listeners serve.\<close>

lemma all_bound_all_serve:
  "bind_errors w = [] \<Longrightarrow> main w order = \<lparr>exit_code = None, serving = order\<rparr>"
  using go_all_serves [of "\<lparr>exit_code = None, serving = []\<rparr>" w order]
  by (simp add: main_def list_all_iff)

lemma sublist_ConsI: "sublist xs ys \<Longrightarrow> sublist xs (y # ys)"
  by (simp add: sublist_Cons_right)

lemma mentions_log_line: "sublist s t \<Longrightarrow> sublist s (log_line t)"
proof -
  assume "sublist s t"
  then obtain ps ss where "t = ps @ s @ ss"
    by (auto simp: sublist_def)
  then have "t @ LF = ps @ s @ (ss @ LF)"
    by simp
  then have "sublist s (t @ LF)"
    unfolding sublist_def by blast
  with \<open>sublist s t\<close> show ?thesis
    by (simp add: log_line_def)
qed

lemma start_failure_logged:
  assumes "map_of (bind_errors w) l = Some err"
  shows "list_ex (mentions err) (fst (start w l)) \<and> last (fst (start w l)) = Exit 1"
  using assms
  by (cases l)
    (simp_all add: start.simps startHTTPServer_def startDNSServer_def startICMPServer_def
      startSMTPServer_def Let_def frame_defs mentions_log_line sublist_ConsI)

text \<open>
  C1, amended. When the bind of a listener fails and that listener gets to run, it logs
  the error and calls \<^verbatim>\<open>os.Exit(1)\<close>, which ends the whole process: afterwards no
  listener accepts traffic, whichever it is and in whatever order the goroutines ran.
\<close>

theorem bind_failure_ends_process:
  assumes "map_of (bind_errors w) l = Some err" and "l \<in> set order"
  shows "list_ex (mentions err) (fst (start w l))
       \<and> last (fst (start w l)) = Exit 1
       \<and> exit_code (main w order) = Some 1
       \<and> serving (main w order) = []
       \<and> \<not> accepting (main w order) l'"
  using go_all_exits [of "\<lparr>exit_code = None, serving = []\<rparr>" l order w err] assms
    start_failure_logged [of w l err]
  by (simp add: main_def accepting_def)

theorem bind_failure_ends_process_witness:
  "ICMP \<in> set [SMTP, ICMP, DNS, HTTP]
   \<and> exit_code (main \<lparr>bind_errors = [(ICMP, ''listen ip4:icmp 0.0.0.0: socket: operation not permitted'')],
        http_in = [], dns_in = [], icmp_in = [], smtp_in = []\<rparr> [SMTP, ICMP, DNS, HTTP]) = Some 1
   \<and> \<not> accepting (main \<lparr>bind_errors = [(ICMP, ''listen ip4:icmp 0.0.0.0: socket: operation not permitted'')],
        http_in = [], dns_in = [], icmp_in = [], smtp_in = []\<rparr> [SMTP, ICMP, DNS, HTTP]) SMTP"
  using bind_failure_ends_process [of
      "\<lparr>bind_errors = [(ICMP, ''listen ip4:icmp 0.0.0.0: socket: operation not permitted'')],
        http_in = [], dns_in = [], icmp_in = [], smtp_in = []\<rparr>" ICMP
      "''listen ip4:icmp 0.0.0.0: socket: operation not permitted''" "[SMTP, ICMP, DNS, HTTP]" SMTP]
  by simp

text \<open>
  Only the bind of the DNS listener fails, after the HTTP listener has started: the process
  exits with status 1 and none of the other three listeners accepts traffic.
\<close>

theorem bind_failure_isolation_counterexample:
  "exit_code (main \<lparr>bind_errors = [(DNS, ''listen udp :53: bind: address already in use'')],
        http_in = [], dns_in = [], icmp_in = [], smtp_in = []\<rparr> [HTTP, DNS, ICMP, SMTP]) = Some 1
   \<and> \<not> accepting (main \<lparr>bind_errors = [(DNS, ''listen udp :53: bind: address already in use'')],
        http_in = [], dns_in = [], icmp_in = [], smtp_in = []\<rparr> [HTTP, DNS, ICMP, SMTP]) HTTP
   \<and> \<not> accepting (main \<lparr>bind_errors = [(DNS, ''listen udp :53: bind: address already in use'')],
        http_in = [], dns_in = [], icmp_in = [], smtp_in = []\<rparr> [HTTP, DNS, ICMP, SMTP]) ICMP
   \<and> \<not> accepting (main \<lparr>bind_errors = [(DNS, ''listen udp :53: bind: address already in use'')],
        http_in = [], dns_in = [], icmp_in = [], smtp_in = []\<rparr> [HTTP, DNS, ICMP, SMTP]) SMTP"
  by (simp add: main_def accepting_def exit_status_start)

end
